theory Spec2Isabelle
  imports Main "HOL-Library.AList"
begin

section \<open>Data model\<close>

text \<open>
  The inspector keeps its API signatures in Python dictionaries. A dictionary is modelled
  as an association list in insertion order with pairwise distinct keys:
  \<open>d[k] = v\<close> is \<open>AList.update k v d\<close> (the value is replaced in place when the key is
  present, the pair is appended otherwise), \<open>k in d\<close> is \<open>map_of d k \<noteq> None\<close>,
  \<open>d.get(k, {})\<close> is \<open>get_or_empty d k\<close>, and iteration runs over the list from left to
  right.

  The value stored for a declaration is either the string built by
  \<open>get_function_signature\<close> or the dictionary built by \<open>get_class_signature\<close>.
\<close>

datatype signature = FuncSig string | ClassSig "(string \<times> string) list"

type_synonym file_signatures = "(string \<times> signature) list"

type_synonym snapshot = "(string \<times> file_signatures) list"

definition get_or_empty :: "('k \<times> ('a list)) list \<Rightarrow> 'k \<Rightarrow> 'a list" where
  "get_or_empty d k = (case map_of d k of None \<Rightarrow> [] | Some v \<Rightarrow> v)"

text \<open>
  Python compares dictionaries as mappings: the order of insertion plays no role. The
  comparison \<open>a == b\<close> of two dictionaries whose values are compared by \<open>eqv\<close>:
\<close>

definition dict_eq :: "('v \<Rightarrow> 'v \<Rightarrow> bool) \<Rightarrow> ('k \<times> 'v) list \<Rightarrow> ('k \<times> 'v) list \<Rightarrow> bool" where
  "dict_eq eqv a b =
     (list_all (\<lambda>k. case map_of a k of
                       None \<Rightarrow> False
                     | Some x \<Rightarrow> (case map_of b k of None \<Rightarrow> False | Some y \<Rightarrow> eqv x y))
        (map fst a)
      \<and> list_all (\<lambda>k. map_of a k \<noteq> None) (map fst b))"

text \<open>\<open>new_api[key] == old_api[key]\<close>: a string never equals a dictionary.\<close>

fun signature_eq :: "signature \<Rightarrow> signature \<Rightarrow> bool" where
  "signature_eq (FuncSig a) (FuncSig b) = (a = b)"
| "signature_eq (ClassSig a) (ClassSig b) = dict_eq (=) a b"
| "signature_eq _ _ = False"

definition file_signatures_eq :: "file_signatures \<Rightarrow> file_signatures \<Rightarrow> bool" where
  "file_signatures_eq = dict_eq signature_eq"

text \<open>\<open>old_api == self.api_signatures\<close> in \<open>run\<close>.\<close>

definition snapshot_eq :: "snapshot \<Rightarrow> snapshot \<Rightarrow> bool" where
  "snapshot_eq = dict_eq file_signatures_eq"

section \<open>The syntax tree and the extractor\<close>

text \<open>
  \<open>ast.parse\<close> returns a tree of nodes. The extractor tests each node for two classes
  only, \<open>ast.FunctionDef\<close> and \<open>ast.ClassDef\<close>, and reads \<open>node.name\<close>,
  \<open>node.args.args\<close> (the names of the positional parameters) and \<open>node.body\<close>. Every
  other node kind (the module itself, \<open>async def\<close>, \<open>if\<close>, \<open>try\<close> and its handlers,
  \<open>with\<close>, loops, ...) is \<open>Other\<close> with its child nodes in the order of
  \<open>ast.iter_child_nodes\<close>. Expression nodes have no statement below them, so they are
  left out of the children: they can neither be nor contain a definition.
\<close>

datatype node =
    FunctionDef string "string list" "node list"
  | ClassDef string "node list"
  | Other "node list"

fun iter_child_nodes :: "node \<Rightarrow> node list" where
  "iter_child_nodes (FunctionDef name args body) = body"
| "iter_child_nodes (ClassDef name body) = body"
| "iter_child_nodes (Other children) = children"

text \<open>
  \<open>ast.walk\<close>: a queue that starts with the root; each step takes the first node, appends
  its children to the end of the queue and yields the node (breadth first).
\<close>

function walk_todo :: "node list \<Rightarrow> node list" where
  "walk_todo [] = []"
| "walk_todo (n # todo) = n # walk_todo (todo @ iter_child_nodes n)"
  by pat_completeness auto
termination
proof (relation "measure (\<lambda>todo. sum_list (map size todo))")
  show "wf (measure (\<lambda>todo. sum_list (map size todo)))"
    by simp
next
  fix n :: node and todo :: "node list"
  have le: "sum_list (map size ns) \<le> size_list size ns" for ns :: "node list"
    by (induction ns) auto
  have "sum_list (map size (iter_child_nodes n)) < size n"
    using le [of "iter_child_nodes n"] by (cases n) auto
  then show "(todo @ iter_child_nodes n, n # todo) \<in> measure (\<lambda>todo. sum_list (map size todo))"
    by simp
qed

definition walk :: "node \<Rightarrow> node list" where
  "walk tree = walk_todo [tree]"

fun join :: "string \<Rightarrow> string list \<Rightarrow> string" where
  "join sep [] = []"
| "join sep [x] = x"
| "join sep (x # y # ys) = x @ sep @ join sep (y # ys)"

text \<open>\<open>f"def {node.name}({', '.join(args)})"\<close>\<close>

definition get_function_signature :: "string \<Rightarrow> string list \<Rightarrow> string" where
  "get_function_signature name args = ''def '' @ name @ ''('' @ join '', '' args @ '')''"

definition add_method :: "node \<Rightarrow> (string \<times> string) list \<Rightarrow> (string \<times> string) list" where
  "add_method child methods =
     (case child of
        FunctionDef name args body \<Rightarrow> AList.update name (get_function_signature name args) methods
      | _ \<Rightarrow> methods)"

text \<open>\<open>get_class_signature\<close> loops over \<open>node.body\<close>, the direct children only.\<close>

definition get_class_signature :: "node list \<Rightarrow> (string \<times> string) list" where
  "get_class_signature body = fold add_method body []"

definition add_api_element :: "node \<Rightarrow> file_signatures \<Rightarrow> file_signatures" where
  "add_api_element n api_elements =
     (case n of
        FunctionDef name args body \<Rightarrow>
          AList.update name (FuncSig (get_function_signature name args)) api_elements
      | ClassDef name body \<Rightarrow>
          AList.update name (ClassSig (get_class_signature body)) api_elements
      | Other children \<Rightarrow> api_elements)"

text \<open>The loop of \<open>extract_api\<close> over \<open>ast.walk(tree)\<close>.\<close>

definition extract_tree :: "node \<Rightarrow> file_signatures" where
  "extract_tree tree = fold add_api_element (walk tree) []"

text \<open>
  A source file, as \<open>ast.parse\<close> sees its text: text that is not syntactically valid makes
  \<open>ast.parse\<close> raise, any other text gives the module node.
\<close>

datatype source = Invalid | Module node

datatype error =
    SyntaxError string
  | TomlDecodeError
  | Base64Error
  | UnicodeDecodeError
  | JSONDecodeError
  | ValueError string

fun extract_api :: "string \<Rightarrow> source \<Rightarrow> error + file_signatures" where
  "extract_api file_path Invalid = Inl (SyntaxError file_path)"
| "extract_api file_path (Module tree) = Inr (extract_tree tree)"

text \<open>
  What the loop of \<open>extract_api\<close> does with a node: the two node kinds it records, the
  key it records them under and the value it stores.
\<close>

fun is_definition :: "node \<Rightarrow> bool" where
  "is_definition (FunctionDef name args body) = True"
| "is_definition (ClassDef name body) = True"
| "is_definition (Other children) = False"

fun node_name :: "node \<Rightarrow> string" where
  "node_name (FunctionDef name args body) = name"
| "node_name (ClassDef name body) = name"
| "node_name (Other children) = []"

fun node_signature :: "node \<Rightarrow> signature" where
  "node_signature (FunctionDef name args body) = FuncSig (get_function_signature name args)"
| "node_signature (ClassDef name body) = ClassSig (get_class_signature body)"
| "node_signature (Other children) = ClassSig []"

text \<open>Every node of a tree, at any depth: the node itself and the nodes of its children.\<close>

fun nodes_of :: "node \<Rightarrow> node list" where
  "nodes_of (FunctionDef name args body) = FunctionDef name args body # concat (map nodes_of body)"
| "nodes_of (ClassDef name body) = ClassDef name body # concat (map nodes_of body)"
| "nodes_of (Other children) = Other children # concat (map nodes_of children)"

text \<open>The nodes \<open>get_class_signature\<close> records.\<close>

fun is_function :: "node \<Rightarrow> bool" where
  "is_function (FunctionDef name args body) = True"
| "is_function n = False"

section \<open>The package scanner\<close>

text \<open>\<open>str.startswith\<close> and \<open>str.endswith\<close>.\<close>

definition startswith :: "string \<Rightarrow> string \<Rightarrow> bool" where
  "startswith s p = (take (length p) s = p)"

definition endswith :: "string \<Rightarrow> string \<Rightarrow> bool" where
  "endswith s p = (length p \<le> length s \<and> drop (length s - length p) s = p)"

text \<open>The test of \<open>scan_package\<close>: \<open>file.endswith(".py") and not file.startswith("_")\<close>.\<close>

definition selected :: "string \<Rightarrow> bool" where
  "selected file = (endswith file ''.py'' \<and> \<not> startswith file ''_'')"

text \<open>\<open>os.path.join(root, file)\<close> on a POSIX system.\<close>

definition path_join :: "string \<Rightarrow> string \<Rightarrow> string" where
  "path_join root file =
     (if startswith file ''/'' then file
      else if root = [] \<or> endswith root ''/'' then root @ file
      else root @ ''/'' @ file)"

text \<open>
  What \<open>os.walk(self.package_path)\<close> yields: the directories in the order of the walk, each
  with its files in the order listed; every file comes with its text as \<open>ast.parse\<close> reads
  it.
\<close>

type_synonym listing = "(string \<times> (string \<times> source) list) list"

text \<open>
  The inner loop of \<open>scan_package\<close>. The dictionary it assigns into is
  \<open>self.api_signatures\<close>, as loaded from the store: the scan starts from it. An exception
  of \<open>extract_api\<close> leaves the loop and the run.
\<close>

fun scan_files :: "string \<Rightarrow> (string \<times> source) list \<Rightarrow> snapshot \<Rightarrow> error + snapshot" where
  "scan_files root [] api_signatures = Inr api_signatures"
| "scan_files root ((file, text) # files) api_signatures =
     (if selected file then
        (case extract_api (path_join root file) text of
           Inl e \<Rightarrow> Inl e
         | Inr api_elements \<Rightarrow>
             scan_files root files (AList.update (path_join root file) api_elements api_signatures))
      else scan_files root files api_signatures)"

fun scan_package :: "listing \<Rightarrow> snapshot \<Rightarrow> error + snapshot" where
  "scan_package [] api_signatures = Inr api_signatures"
| "scan_package ((root, files) # dirs) api_signatures =
     (case scan_files root files api_signatures of
        Inl e \<Rightarrow> Inl e
      | Inr scanned \<Rightarrow> scan_package dirs scanned)"

section \<open>The version engine\<close>

text \<open>
  Modelled from the spec: the \<open>semver\<close> library is not part of the repository. The spec
  gives it as \<open>parse(string) -> Version\<close> with \<open>bump_major/minor/patch\<close> over a
  VersionTriple major.minor.patch in canonical string form, without pre-release or build
  metadata: a bump of major resets minor and patch to 0, a bump of minor resets patch
  to 0. A canonical component is a non-empty run of decimal digits with no leading zero
  (\<open>0\<close> itself apart); a string that is not of the form is refused by \<open>parse\<close>.
\<close>

datatype version = Version nat nat nat

fun bump_major :: "version \<Rightarrow> version" where
  "bump_major (Version a b c) = Version (a + 1) 0 0"

fun bump_minor :: "version \<Rightarrow> version" where
  "bump_minor (Version a b c) = Version a (b + 1) 0"

fun bump_patch :: "version \<Rightarrow> version" where
  "bump_patch (Version a b c) = Version a b (c + 1)"

definition digit_char :: "nat \<Rightarrow> char" where
  "digit_char d = char_of (48 + d)"

definition is_digit :: "char \<Rightarrow> bool" where
  "is_digit c = (48 \<le> (of_char c :: nat) \<and> (of_char c :: nat) \<le> 57)"

definition digit_value :: "char \<Rightarrow> nat" where
  "digit_value c = of_char c - 48"

function str_nat :: "nat \<Rightarrow> string" where
  "str_nat n = (if n < 10 then [digit_char n] else str_nat (n div 10) @ [digit_char (n mod 10)])"
  by pat_completeness auto
termination
  by (relation "measure id") auto

definition parse_nat :: "string \<Rightarrow> nat option" where
  "parse_nat s =
     (if s = [] \<or> \<not> list_all is_digit s \<or> (1 < length s \<and> hd s = CHR ''0'') then None
      else Some (foldl (\<lambda>acc c. 10 * acc + digit_value c) 0 s))"

text \<open>\<open>s.split(sep)\<close> for a separator of one character.\<close>

fun split :: "char \<Rightarrow> string \<Rightarrow> string list" where
  "split sep [] = [[]]"
| "split sep (c # cs) =
     (if c = sep then [] # split sep cs
      else (case split sep cs of
              [] \<Rightarrow> [[c]]
            | part # parts \<Rightarrow> (c # part) # parts))"

definition parse_version :: "string \<Rightarrow> version option" where
  "parse_version s =
     (case split (CHR ''.'') s of
        [a, b, c] \<Rightarrow>
          (case parse_nat a of
             None \<Rightarrow> None
           | Some x \<Rightarrow>
               (case parse_nat b of
                  None \<Rightarrow> None
                | Some y \<Rightarrow>
                    (case parse_nat c of
                       None \<Rightarrow> None
                     | Some z \<Rightarrow> Some (Version x y z))))
      | _ \<Rightarrow> None)"

fun str_version :: "version \<Rightarrow> string" where
  "str_version (Version a b c) = str_nat a @ ''.'' @ str_nat b @ ''.'' @ str_nat c"

text \<open>
  \<open>increment_version\<close>: the tests \<open>if major:\<close>, \<open>elif minor:\<close>, \<open>elif patch:\<close> are
  Python's truth tests on integers, true for every value but 0. The parse of
  \<open>self.current_version\<close> raises \<open>ValueError\<close> when the string is not a version.
\<close>

definition increment_version :: "string \<Rightarrow> int \<Rightarrow> int \<Rightarrow> int \<Rightarrow> error + string" where
  "increment_version current_version major minor patch =
     (case parse_version current_version of
        None \<Rightarrow> Inl (ValueError current_version)
      | Some parsed \<Rightarrow>
          Inr (str_version
                 (if major \<noteq> 0 then bump_major parsed
                  else if minor \<noteq> 0 then bump_minor parsed
                  else if patch \<noteq> 0 then bump_patch parsed
                  else parsed)))"

section \<open>The diff classifier\<close>

text \<open>
  The local variables of \<open>detect_changes\<close>: the three counters \<open>major\<close>, \<open>minor\<close>,
  \<open>patch\<close> and the list \<open>changes\<close>.
\<close>

record tally =
  major_count :: int
  minor_count :: int
  patch_count :: int
  changes :: "string list"

text \<open>
  The body of \<open>for key in new_api\<close>. The loop runs over the keys of \<open>new_api\<close> and reads
  \<open>new_api[key]\<close>; over a dictionary that is the loop over its items.
\<close>

definition check_new_key :: "string \<Rightarrow> file_signatures \<Rightarrow> string \<times> signature \<Rightarrow> tally \<Rightarrow> tally" where
  "check_new_key file old_api item t =
     (case map_of old_api (fst item) of
        None \<Rightarrow>
          t\<lparr>minor_count := minor_count t + 1,
            changes := changes t @ [''Added '' @ fst item @ '' in '' @ file]\<rparr>
      | Some old_signature \<Rightarrow>
          (if \<not> signature_eq (snd item) old_signature then
             t\<lparr>major_count := major_count t + 1,
               changes := changes t @
                 [''Changed signature of '' @ fst item @ '' in '' @ file @ '':'' @ [CHR 0x0A]]\<rparr>
           else t))"

text \<open>The body of \<open>for key in old_api\<close>.\<close>

definition check_old_key :: "string \<Rightarrow> file_signatures \<Rightarrow> string \<Rightarrow> tally \<Rightarrow> tally" where
  "check_old_key file new_api key t =
     (if map_of new_api key = None then
        t\<lparr>major_count := major_count t + 1,
          changes := changes t @ [''Removed '' @ key @ '' from '' @ file]\<rparr>
      else t)"

text \<open>The body of \<open>for file, new_api in new_signatures.items()\<close>.\<close>

definition check_file :: "snapshot \<Rightarrow> string \<times> file_signatures \<Rightarrow> tally \<Rightarrow> tally" where
  "check_file old_signatures entry t =
     (let old_api = get_or_empty old_signatures (fst entry) in
      fold (check_old_key (fst entry) (snd entry)) (map fst old_api)
        (fold (check_new_key (fst entry) old_api) (snd entry) t))"

definition tally_changes :: "snapshot \<Rightarrow> snapshot \<Rightarrow> tally" where
  "tally_changes old_signatures new_signatures =
     fold (check_file old_signatures) new_signatures
       \<lparr>major_count = 0, minor_count = 0, patch_count = 0, changes = []\<rparr>"

definition detect_changes :: "string \<Rightarrow> snapshot \<Rightarrow> snapshot \<Rightarrow> error + string \<times> string list" where
  "detect_changes current_version old_signatures new_signatures =
     (let t = tally_changes old_signatures new_signatures in
      case increment_version current_version (major_count t) (minor_count t) (patch_count t) of
        Inl e \<Rightarrow> Inl e
      | Inr new_version \<Rightarrow> Inr (new_version, changes t))"

section \<open>The snapshot store\<close>

text \<open>
  \<open>pyproject.toml\<close> as \<open>toml.load\<close> returns it. The inspector reads and writes three
  entries: \<open>project.version\<close>, \<open>tool.ast_inspector.api_signatures\<close> and
  \<open>tool.ast_inspector.last_changes\<close>. A table or an entry that may be absent is an
  option; what else a table holds is kept as it is (\<open>other_entries\<close>, \<open>other_tools\<close>,
  \<open>other_tables\<close>). The values have the types the inspector writes: the version and
  the signatures are strings, the changes a list of strings.
\<close>

record project_table =
  version_entry :: "string option"
  other_entries :: "(string \<times> string) list"

record ast_inspector_table =
  api_signatures_entry :: "string option"
  last_changes_entry :: "string list option"

record tool_table =
  ast_inspector :: "ast_inspector_table option"
  other_tools :: "(string \<times> string) list"

record pyproject =
  project :: "project_table option"
  tool :: "tool_table option"
  other_tables :: "(string \<times> string) list"

text \<open>
  The file behind \<open>self.pyproject_file\<close>: absent (\<open>os.path.exists\<close> is false), present
  with text that \<open>toml.load\<close> refuses, or present with a document.
\<close>

datatype store = NoFile | BadToml | TomlFile pyproject

text \<open>The fields of the inspector object (the two paths are fixed by the arguments).\<close>

record inspector =
  current_version :: string
  api_signatures :: snapshot
  dry_run :: bool

text \<open>\<open>data.get("project", {}).get("version", "0.1.0")\<close>\<close>

definition load_version :: "store \<Rightarrow> error + string" where
  "load_version st =
     (case st of
        NoFile \<Rightarrow> Inr ''0.1.0''
      | BadToml \<Rightarrow> Inl TomlDecodeError
      | TomlFile data \<Rightarrow>
          (case project data of
             None \<Rightarrow> Inr ''0.1.0''
           | Some p \<Rightarrow> (case version_entry p of None \<Rightarrow> Inr ''0.1.0'' | Some v \<Rightarrow> Inr v)))"

text \<open>\<open>data.get("tool", {}).get("ast_inspector", {}).get("api_signatures", "")\<close>\<close>

definition encoded_signatures :: "pyproject \<Rightarrow> string" where
  "encoded_signatures data =
     (case tool data of
        None \<Rightarrow> []
      | Some t \<Rightarrow>
          (case ast_inspector t of
             None \<Rightarrow> []
           | Some a \<Rightarrow> (case api_signatures_entry a of None \<Rightarrow> [] | Some s \<Rightarrow> s)))"

text \<open>
  \<open>load_api_signatures\<close>. The parameter \<open>decode\<close> is the library call
  \<open>json.loads(base64.b64decode(encoded_signatures).decode())\<close>, which either returns the
  snapshot or raises; the call stands in no \<open>try\<close>, so what it raises leaves the
  function. The test \<open>if encoded_signatures:\<close> is false for the empty string only.
\<close>

definition load_api_signatures :: "(string \<Rightarrow> error + snapshot) \<Rightarrow> store \<Rightarrow> error + snapshot" where
  "load_api_signatures decode st =
     (case st of
        NoFile \<Rightarrow> Inr []
      | BadToml \<Rightarrow> Inl TomlDecodeError
      | TomlFile data \<Rightarrow>
          (if encoded_signatures data \<noteq> [] then decode (encoded_signatures data) else Inr []))"

text \<open>The constructor \<open>__init__\<close>: both loads, in this order.\<close>

definition init :: "(string \<Rightarrow> error + snapshot) \<Rightarrow> store \<Rightarrow> bool \<Rightarrow> error + inspector" where
  "init decode st dry =
     (case load_version st of
        Inl e \<Rightarrow> Inl e
      | Inr v \<Rightarrow>
          (case load_api_signatures decode st of
             Inl e \<Rightarrow> Inl e
           | Inr signatures \<Rightarrow>
               Inr \<lparr>current_version = v, api_signatures = signatures, dry_run = dry\<rparr>))"

text \<open>
  \<open>save_version\<close> returns the store after the call, or what it raises. The parameter
  \<open>encode\<close> is the library call
  \<open>base64.b64encode(json.dumps(self.api_signatures).encode()).decode()\<close>. The two
  guards \<open>if os.path.exists(self.pyproject_file)\<close> and \<open>if "project" in data\<close> have no
  \<open>else\<close>: where one fails nothing is written. The \<open>print\<close> calls are left out.
\<close>

definition save_version ::
  "(snapshot \<Rightarrow> string) \<Rightarrow> inspector \<Rightarrow> store \<Rightarrow> string \<Rightarrow> string list \<Rightarrow> error + store" where
  "save_version encode self st new_version change_list =
     (if dry_run self then Inr st
      else
        (case st of
           NoFile \<Rightarrow> Inr st
         | BadToml \<Rightarrow> Inl TomlDecodeError
         | TomlFile data \<Rightarrow>
             (case project data of
                None \<Rightarrow> Inr st
              | Some p \<Rightarrow>
                  Inr (TomlFile
                    (data\<lparr>project := Some (p\<lparr>version_entry := Some new_version\<rparr>),
                          tool := Some
                            ((case tool data of
                                None \<Rightarrow> \<lparr>ast_inspector = None, other_tools = []\<rparr>
                              | Some t \<Rightarrow> t)
                             \<lparr>ast_inspector := Some
                                \<lparr>api_signatures_entry = Some (encode (api_signatures self)),
                                 last_changes_entry = Some change_list\<rparr>\<rparr>)\<rparr>)))))"

section \<open>The orchestrator\<close>

text \<open>
  \<open>run\<close> returns how the call ends (the inspector after it, or the exception that leaves
  it) and the store after it. \<open>old_api\<close> is a copy of the dictionary, and the scan assigns
  into \<open>self.api_signatures\<close> itself. An exception of the scan, of the version engine
  or of \<open>save_version\<close> leaves \<open>run\<close> before anything is written. The \<open>print\<close> calls
  are left out.
\<close>

definition run ::
  "(snapshot \<Rightarrow> string) \<Rightarrow> listing \<Rightarrow> store \<Rightarrow> inspector \<Rightarrow> (error + inspector) \<times> store" where
  "run encode package st self =
     (let old_api = api_signatures self in
      case scan_package package (api_signatures self) of
        Inl e \<Rightarrow> (Inl e, st)
      | Inr scanned \<Rightarrow>
          (let self' = self\<lparr>api_signatures := scanned\<rparr> in
           if \<not> snapshot_eq old_api (api_signatures self') then
             (case detect_changes (current_version self') old_api (api_signatures self') of
                Inl e \<Rightarrow> (Inl e, st)
              | Inr (new_version, change_list) \<Rightarrow>
                  (case save_version encode self' st new_version change_list of
                     Inl e \<Rightarrow> (Inl e, st)
                   | Inr st' \<Rightarrow> (Inr self', st')))
           else (Inr self', st)))"

text \<open>The two commands of \<open>cli.py\<close>: \<open>update\<close> and \<open>check\<close> (the dry run).\<close>

definition update ::
  "(snapshot \<Rightarrow> string) \<Rightarrow> (string \<Rightarrow> error + snapshot) \<Rightarrow> listing \<Rightarrow> store
     \<Rightarrow> (error + inspector) \<times> store" where
  "update encode decode package st =
     (case init decode st False of
        Inl e \<Rightarrow> (Inl e, st)
      | Inr self \<Rightarrow> run encode package st self)"

definition check ::
  "(snapshot \<Rightarrow> string) \<Rightarrow> (string \<Rightarrow> error + snapshot) \<Rightarrow> listing \<Rightarrow> store
     \<Rightarrow> (error + inspector) \<times> store" where
  "check encode decode package st =
     (case init decode st True of
        Inl e \<Rightarrow> (Inl e, st)
      | Inr self \<Rightarrow> run encode package st self)"

section \<open>The serialisation of the snapshot\<close>

text \<open>
  The store keeps the snapshot as \<open>base64(json.dumps(snapshot))\<close>. Both libraries are
  Python's own; the functions below follow them on the texts the inspector writes.
  \<open>load_api_signatures\<close> and \<open>save_version\<close> take the two library calls as
  parameters, and these functions are the ones a concrete store is read and written
  with. A string is a list of code points below 256.

  \<open>json.dumps\<close> with its defaults: the separators \<open>", "\<close> and \<open>": "\<close>, and every
  character outside the printable ASCII range escaped.
\<close>

definition hex_digit :: "nat \<Rightarrow> char" where
  "hex_digit d = (if d < 10 then char_of (48 + d) else char_of (87 + d))"

definition escape_char :: "char \<Rightarrow> string" where
  "escape_char c =
     (if c = CHR 0x22 then [CHR 0x5C, CHR 0x22]
      else if c = CHR 0x5C then [CHR 0x5C, CHR 0x5C]
      else if c = CHR 0x0A then [CHR 0x5C, CHR ''n'']
      else if c = CHR 0x0D then [CHR 0x5C, CHR ''r'']
      else if c = CHR 0x09 then [CHR 0x5C, CHR ''t'']
      else if c = CHR 0x08 then [CHR 0x5C, CHR ''b'']
      else if c = CHR 0x0C then [CHR 0x5C, CHR ''f'']
      else if 32 \<le> (of_char c :: nat) \<and> (of_char c :: nat) \<le> 126 then [c]
      else [CHR 0x5C, CHR ''u'', CHR ''0'', CHR ''0'',
            hex_digit ((of_char c :: nat) div 16), hex_digit ((of_char c :: nat) mod 16)])"

definition dumps_string :: "string \<Rightarrow> string" where
  "dumps_string s = [CHR 0x22] @ concat (map escape_char s) @ [CHR 0x22]"

definition dumps_dict :: "('v \<Rightarrow> string) \<Rightarrow> (string \<times> 'v) list \<Rightarrow> string" where
  "dumps_dict dumps_value d =
     ''{'' @ join '', '' (map (\<lambda>item. dumps_string (fst item) @ '': '' @ dumps_value (snd item)) d)
       @ ''}''"

fun dumps_signature :: "signature \<Rightarrow> string" where
  "dumps_signature (FuncSig s) = dumps_string s"
| "dumps_signature (ClassSig methods) = dumps_dict dumps_string methods"

definition json_dumps :: "snapshot \<Rightarrow> string" where
  "json_dumps = dumps_dict (dumps_dict dumps_signature)"

text \<open>\<open>base64.b64encode\<close> over the bytes of the text.\<close>

definition b64_char :: "nat \<Rightarrow> char" where
  "b64_char v =
     (if v < 26 then char_of (65 + v)
      else if v < 52 then char_of (71 + v)
      else if v < 62 then char_of (v - 4)
      else if v = 62 then CHR ''+''
      else CHR ''/'')"

fun b64encode_bytes :: "nat list \<Rightarrow> string" where
  "b64encode_bytes [] = []"
| "b64encode_bytes [a] = [b64_char (a div 4), b64_char ((a mod 4) * 16), CHR ''='', CHR ''='']"
| "b64encode_bytes [a, b] =
     [b64_char (a div 4), b64_char ((a mod 4) * 16 + b div 16), b64_char ((b mod 16) * 4),
      CHR ''='']"
| "b64encode_bytes (a # b # c # bytes) =
     [b64_char (a div 4), b64_char ((a mod 4) * 16 + b div 16),
      b64_char ((b mod 16) * 4 + c div 64), b64_char (c mod 64)] @ b64encode_bytes bytes"

definition b64encode :: "string \<Rightarrow> string" where
  "b64encode s = b64encode_bytes (map of_char s)"

definition encode_signatures :: "snapshot \<Rightarrow> string" where
  "encode_signatures signatures = b64encode (json_dumps signatures)"

text \<open>
  \<open>base64.b64decode\<close> (\<open>binascii.a2b_base64\<close>, not strict): a character outside the
  alphabet is skipped; padding ends the input once the current group of four is
  complete with it; input that ends inside a group raises \<open>binascii.Error\<close>.
\<close>

definition b64_value :: "char \<Rightarrow> nat option" where
  "b64_value c =
     (let n = (of_char c :: nat) in
      if 65 \<le> n \<and> n \<le> 90 then Some (n - 65)
      else if 97 \<le> n \<and> n \<le> 122 then Some (n - 71)
      else if 48 \<le> n \<and> n \<le> 57 then Some (n + 4)
      else if n = 43 then Some 62
      else if n = 47 then Some 63
      else None)"

fun a2b_base64 :: "string \<Rightarrow> nat \<Rightarrow> nat \<Rightarrow> nat \<Rightarrow> nat list \<Rightarrow> error + nat list" where
  "a2b_base64 [] quad_pos leftchar pads bin_data =
     (if quad_pos \<noteq> 0 then Inl Base64Error else Inr bin_data)"
| "a2b_base64 (this_ch # ascii_data) quad_pos leftchar pads bin_data =
     (if this_ch = CHR ''='' then
        (if 2 \<le> quad_pos \<and> 4 \<le> quad_pos + (pads + 1) then Inr bin_data
         else a2b_base64 ascii_data quad_pos leftchar
                (if 2 \<le> quad_pos then pads + 1 else pads) bin_data)
      else
        (case b64_value this_ch of
           None \<Rightarrow> a2b_base64 ascii_data quad_pos leftchar pads bin_data
         | Some v \<Rightarrow>
             (if quad_pos = 0 then a2b_base64 ascii_data 1 v 0 bin_data
              else if quad_pos = 1 then
                a2b_base64 ascii_data 2 (v mod 16) 0 (bin_data @ [leftchar * 4 + v div 16])
              else if quad_pos = 2 then
                a2b_base64 ascii_data 3 (v mod 4) 0 (bin_data @ [leftchar * 16 + v div 4])
              else a2b_base64 ascii_data 0 0 0 (bin_data @ [leftchar * 64 + v]))))"

text \<open>
  A \<open>str\<close> argument of \<open>b64decode\<close> must be ASCII (\<open>ValueError\<close> otherwise). The bytes
  are then decoded as UTF-8 by \<open>.decode()\<close>; bytes from 128 on are outside the texts
  \<open>json.dumps\<close> writes and are reported as an error of the decoding.
\<close>

definition b64decode :: "string \<Rightarrow> error + string" where
  "b64decode s =
     (if \<not> list_all (\<lambda>c. (of_char c :: nat) < 128) s then Inl (ValueError s)
      else
        (case a2b_base64 s 0 0 0 [] of
           Inl e \<Rightarrow> Inl e
         | Inr bin_data \<Rightarrow>
             (if list_all (\<lambda>b. b < 128) bin_data then Inr (map char_of bin_data)
              else Inl UnicodeDecodeError)))"

text \<open>
  \<open>json.loads\<close>, for the documents of the snapshot's shape: an object of objects whose
  values are strings or objects of strings. Any other text is refused.
\<close>

definition skip_ws :: "string \<Rightarrow> string" where
  "skip_ws = dropWhile (\<lambda>c. c = CHR '' '' \<or> c = CHR 0x09 \<or> c = CHR 0x0A \<or> c = CHR 0x0D)"

definition hex_value :: "char \<Rightarrow> nat option" where
  "hex_value c =
     (let n = (of_char c :: nat) in
      if 48 \<le> n \<and> n \<le> 57 then Some (n - 48)
      else if 97 \<le> n \<and> n \<le> 102 then Some (n - 87)
      else if 65 \<le> n \<and> n \<le> 70 then Some (n - 55)
      else None)"

definition simple_escape :: "char \<Rightarrow> char option" where
  "simple_escape e =
     (if e = CHR 0x22 \<or> e = CHR 0x5C \<or> e = CHR ''/'' then Some e
      else if e = CHR ''n'' then Some (CHR 0x0A)
      else if e = CHR ''r'' then Some (CHR 0x0D)
      else if e = CHR ''t'' then Some (CHR 0x09)
      else if e = CHR ''b'' then Some (CHR 0x08)
      else if e = CHR ''f'' then Some (CHR 0x0C)
      else None)"

text \<open>The escape \<open>\uXXXX\<close> of a code point below 256.\<close>

definition unicode_escape :: "char \<Rightarrow> char \<Rightarrow> char \<Rightarrow> char \<Rightarrow> char option" where
  "unicode_escape a b h l =
     (case hex_value a of
        None \<Rightarrow> None
      | Some x \<Rightarrow>
          (case hex_value b of
             None \<Rightarrow> None
           | Some y \<Rightarrow>
               (case hex_value h of
                  None \<Rightarrow> None
                | Some z \<Rightarrow>
                    (case hex_value l of
                       None \<Rightarrow> None
                     | Some w \<Rightarrow> if x = 0 \<and> y = 0 then Some (char_of (16 * z + w)) else None))))"

text \<open>
  The characters of a string after its opening quote, up to the closing one: the string
  and the text behind it.
\<close>

fun loads_chars :: "string \<Rightarrow> string \<Rightarrow> (string \<times> string) option" where
  "loads_chars acc [] = None"
| "loads_chars acc (c # cs) =
     (if c = CHR 0x22 then Some (rev acc, cs)
      else if c = CHR 0x5C then
        (case cs of
           [] \<Rightarrow> None
         | e # rest \<Rightarrow>
             (if e = CHR ''u'' then
                (case rest of
                   a # b # h # l # rest' \<Rightarrow>
                     (case unicode_escape a b h l of
                        None \<Rightarrow> None
                      | Some ch \<Rightarrow> loads_chars (ch # acc) rest')
                 | _ \<Rightarrow> None)
              else
                (case simple_escape e of
                   None \<Rightarrow> None
                 | Some ch \<Rightarrow> loads_chars (ch # acc) rest)))
      else if (of_char c :: nat) < 32 then None
      else loads_chars (c # acc) cs)"

definition loads_string :: "string \<Rightarrow> (string \<times> string) option" where
  "loads_string s = (case s of [] \<Rightarrow> None | c # cs \<Rightarrow> if c = CHR 0x22 then loads_chars [] cs else None)"

text \<open>
  The members of an object, from its first key on; a key that comes twice keeps its
  place and takes the later value, as in a Python dictionary. The fuel is the length of
  the text, and every member uses up a character.
\<close>

fun loads_members ::
  "nat \<Rightarrow> (string \<Rightarrow> ('v \<times> string) option) \<Rightarrow> (string \<times> 'v) list \<Rightarrow> string
     \<Rightarrow> ((string \<times> 'v) list \<times> string) option" where
  "loads_members 0 loads_value acc s = None"
| "loads_members (Suc fuel) loads_value acc s =
     (case loads_string s of
        None \<Rightarrow> None
      | Some (key, after_key) \<Rightarrow>
          (case skip_ws after_key of
             [] \<Rightarrow> None
           | colon # after_colon \<Rightarrow>
               (if colon \<noteq> CHR '':'' then None
                else
                  (case loads_value (skip_ws after_colon) of
                     None \<Rightarrow> None
                   | Some (v, after_value) \<Rightarrow>
                       (case skip_ws after_value of
                          [] \<Rightarrow> None
                        | sep # after_sep \<Rightarrow>
                            (if sep = CHR ''}'' then Some (AList.update key v acc, after_sep)
                             else if sep = CHR '','' then
                               loads_members fuel loads_value (AList.update key v acc)
                                 (skip_ws after_sep)
                             else None))))))"

definition loads_dict ::
  "(string \<Rightarrow> ('v \<times> string) option) \<Rightarrow> string \<Rightarrow> ((string \<times> 'v) list \<times> string) option" where
  "loads_dict loads_value s =
     (case s of
        [] \<Rightarrow> None
      | c # cs \<Rightarrow>
          (if c \<noteq> CHR ''{'' then None
           else
             (case skip_ws cs of
                [] \<Rightarrow> None
              | d # ds \<Rightarrow>
                  (if d = CHR ''}'' then Some ([], ds)
                   else loads_members (length (d # ds)) loads_value [] (d # ds)))))"

definition loads_signature :: "string \<Rightarrow> (signature \<times> string) option" where
  "loads_signature s =
     (case s of
        [] \<Rightarrow> None
      | c # cs \<Rightarrow>
          (if c = CHR 0x22 then map_option (\<lambda>r. (FuncSig (fst r), snd r)) (loads_string s)
           else map_option (\<lambda>r. (ClassSig (fst r), snd r)) (loads_dict loads_string s)))"

definition json_loads :: "string \<Rightarrow> error + snapshot" where
  "json_loads s =
     (case loads_dict (loads_dict loads_signature) (skip_ws s) of
        None \<Rightarrow> Inl JSONDecodeError
      | Some (signatures, rest) \<Rightarrow>
          (if skip_ws rest = [] then Inr signatures else Inl JSONDecodeError))"

text \<open>\<open>json.loads(base64.b64decode(encoded_signatures).decode())\<close>\<close>

definition decode_signatures :: "string \<Rightarrow> error + snapshot" where
  "decode_signatures encoded =
     (case b64decode encoded of
        Inl e \<Rightarrow> Inl e
      | Inr text \<Rightarrow> json_loads text)"

section \<open>Properties of the data model\<close>

text \<open>The comparison of dictionaries is the equality of the mappings.\<close>

lemma dict_eq_map_of: "dict_eq (=) a b \<longleftrightarrow> map_of a = map_of b"
proof
  assume eq: "dict_eq (=) a b"
  show "map_of a = map_of b"
  proof
    fix k
    show "map_of a k = map_of b k"
    proof (cases "map_of a k")
      case None
      have "map_of b k = None"
      proof (rule ccontr)
        assume "map_of b k \<noteq> None"
        then have "k \<in> set (map fst b)"
          by (simp add: map_of_eq_None_iff)
        moreover have "\<forall>k \<in> set (map fst b). map_of a k \<noteq> None"
          using eq unfolding dict_eq_def list_all_iff by blast
        ultimately have "map_of a k \<noteq> None"
          by blast
        then show False
          using None by simp
      qed
      then show ?thesis
        using None by simp
    next
      case (Some x)
      then have "k \<in> set (map fst a)"
        by (metis map_of_eq_None_iff option.distinct(1) set_map)
      moreover have "\<forall>k \<in> set (map fst a).
          (case map_of a k of
             None \<Rightarrow> False
           | Some x \<Rightarrow> (case map_of b k of None \<Rightarrow> False | Some y \<Rightarrow> x = y))"
        using eq unfolding dict_eq_def list_all_iff by blast
      ultimately have "case map_of a k of
          None \<Rightarrow> False
        | Some x \<Rightarrow> (case map_of b k of None \<Rightarrow> False | Some y \<Rightarrow> x = y)"
        by blast
      then show ?thesis
        using Some by (simp split: option.splits)
    qed
  qed
next
  assume eq: "map_of a = map_of b"
  have "\<exists>x. map_of a k = Some x" if "k \<in> set (map fst a)" for k
    using that by (metis map_of_eq_None_iff not_None_eq set_map)
  moreover have "map_of a k \<noteq> None" if "k \<in> set (map fst b)" for k
    using that eq by (metis map_of_eq_None_iff set_map)
  ultimately show "dict_eq (=) a b"
    using eq by (fastforce simp: dict_eq_def list_all_iff split: option.splits)
qed

section \<open>Properties of the extractor\<close>

lemma set_nodes_of:
  "set (nodes_of n) = insert n (\<Union>c \<in> set (iter_child_nodes n). set (nodes_of c))"
  by (cases n) auto

lemma set_walk_todo: "set (walk_todo todo) = (\<Union>n \<in> set todo. set (nodes_of n))"
proof (induction todo rule: walk_todo.induct)
  case 1
  show ?case by simp
next
  case (2 n todo)
  have "set (walk_todo (n # todo)) = insert n (set (walk_todo (todo @ iter_child_nodes n)))"
    by simp
  also have "\<dots> = insert n ((\<Union>m \<in> set todo. set (nodes_of m)) \<union>
      (\<Union>c \<in> set (iter_child_nodes n). set (nodes_of c)))"
    by (simp only: "2.IH" set_append UN_Un)
  also have "\<dots> = set (nodes_of n) \<union> (\<Union>m \<in> set todo. set (nodes_of m))"
  proof -
    have "set (nodes_of n) = insert n (\<Union>c \<in> set (iter_child_nodes n). set (nodes_of c))"
      by (rule set_nodes_of)
    then show ?thesis by blast
  qed
  finally show ?case by simp
qed

lemma set_walk: "set (walk tree) = set (nodes_of tree)"
  unfolding walk_def set_walk_todo by simp

lemma self_in_nodes_of: "n \<in> set (nodes_of n)"
  by (cases n) simp_all

lemma child_nodes_of: "c \<in> set (iter_child_nodes n) \<Longrightarrow> set (nodes_of c) \<subseteq> set (nodes_of n)"
  by (cases n) auto

lemma add_api_element_eq:
  "add_api_element n api =
     (if is_definition n then AList.update (node_name n) (node_signature n) api else api)"
  by (cases n) (simp_all add: add_api_element_def)



text \<open>The value under a key is the one of the last definition of that name in the walk.\<close>

lemma map_of_fold_add_api_element:
  "map_of (fold add_api_element ns api) k =
     (case find (\<lambda>n. is_definition n \<and> node_name n = k) (rev ns) of
        None \<Rightarrow> map_of api k
      | Some n \<Rightarrow> Some (node_signature n))"
proof (induction ns rule: rev_induct)
  case Nil
  show ?case by simp
next
  case (snoc n ns)
  have "map_of (fold add_api_element (ns @ [n]) api) k
      = map_of (add_api_element n (fold add_api_element ns api)) k"
    by simp
  also have "\<dots> = (if is_definition n \<and> node_name n = k then Some (node_signature n)
      else map_of (fold add_api_element ns api) k)"
    by (simp only: add_api_element_eq [of n]) (simp add: update_conv')
  finally show ?case
    by (simp add: snoc.IH)
qed

lemma find_Some_mem: "find P xs = Some x \<Longrightarrow> x \<in> set xs \<and> P x"
  by (induction xs) (auto split: if_splits)

lemma find_mem_Some: "x \<in> set xs \<Longrightarrow> P x \<Longrightarrow> \<exists>y. find P xs = Some y"
  by (induction xs) auto

lemma map_of_extract_tree:
  assumes "n \<in> set (nodes_of tree)" and "is_definition n" and "node_name n = k"
    and "\<And>m. m \<in> set (nodes_of tree) \<Longrightarrow> is_definition m \<Longrightarrow> node_name m = k
           \<Longrightarrow> node_signature m = v"
  shows "map_of (extract_tree tree) k = Some v"
proof -
  let ?P = "\<lambda>n. is_definition n \<and> node_name n = k"
  have "n \<in> set (rev (walk tree))"
    using assms(1) by (simp add: set_walk)
  then obtain m where m: "find ?P (rev (walk tree)) = Some m"
    using assms(2,3) find_mem_Some [of n "rev (walk tree)" ?P] by blast
  then have "m \<in> set (nodes_of tree)" and "?P m"
    using find_Some_mem [OF m] by (simp_all add: set_walk)
  then have "node_signature m = v"
    using assms(4) by blast
  then show ?thesis
    by (simp add: extract_tree_def map_of_fold_add_api_element m)
qed

lemma add_method_eq:
  "add_method child methods =
     (if is_function child
      then AList.update (node_name child)
             (case node_signature child of FuncSig s \<Rightarrow> s | ClassSig d \<Rightarrow> []) methods
      else methods)"
  by (cases child) (simp_all add: add_method_def)



lemma map_of_fold_add_method:
  "map_of (fold add_method body methods) k =
     (case find (\<lambda>n. is_function n \<and> node_name n = k) (rev body) of
        None \<Rightarrow> map_of methods k
      | Some n \<Rightarrow> Some (case node_signature n of FuncSig s \<Rightarrow> s | ClassSig d \<Rightarrow> []))"
proof (induction body rule: rev_induct)
  case Nil
  show ?case by simp
next
  case (snoc n ns)
  have "map_of (fold add_method (ns @ [n]) methods) k
      = map_of (add_method n (fold add_method ns methods)) k"
    by simp
  also have "\<dots> = (if is_function n \<and> node_name n = k
      then Some (case node_signature n of FuncSig s \<Rightarrow> s | ClassSig d \<Rightarrow> [])
      else map_of (fold add_method ns methods) k)"
    by (simp only: add_method_eq [of n]) (simp add: update_conv')
  finally show ?case
    by (simp add: snoc.IH)
qed

lemma map_of_get_class_signature:
  assumes "FunctionDef k args mbody \<in> set body"
    and "\<And>m. m \<in> set body \<Longrightarrow> is_function m \<Longrightarrow> node_name m = k
           \<Longrightarrow> node_signature m = FuncSig s"
  shows "map_of (get_class_signature body) k = Some s"
proof -
  let ?P = "\<lambda>n. is_function n \<and> node_name n = k"
  have "FunctionDef k args mbody \<in> set (rev body)"
    using assms(1) by simp
  then obtain m where m: "find ?P (rev body) = Some m"
    using find_mem_Some [of "FunctionDef k args mbody" "rev body" ?P] by auto
  then have "m \<in> set body" and "?P m"
    using find_Some_mem [OF m] by simp_all
  then have "node_signature m = FuncSig s"
    using assms(2) by blast
  then show ?thesis
    by (simp add: get_class_signature_def map_of_fold_add_method m)
qed

section \<open>The claims about the extractor\<close>






text \<open>
  Against C10 as stated: two top-level classes \<open>A\<close> and \<open>B\<close>, each with a method \<open>m\<close>.
  The top-level key \<open>m\<close> is bound to the signature of \<open>B.m\<close>; the signature of \<open>A.m\<close>
  stands in the method mapping of \<open>A\<close> only.
\<close>

theorem method_twice_counterexample:
  "extract_api ''/pkg/a.py''
     (Module (Other [ClassDef ''A'' [FunctionDef ''m'' [''self'', ''a''] []],
                     ClassDef ''B'' [FunctionDef ''m'' [''self'', ''b''] []]]))
     = Inr [(''A'', ClassSig [(''m'', ''def m(self, a)'')]),
            (''B'', ClassSig [(''m'', ''def m(self, b)'')]),
            (''m'', FuncSig ''def m(self, b)'')]"
  by code_simp

text \<open>
  C10, amended. For a top-level class with a directly nested function \<open>m\<close>: when every
  definition of the file that has the name \<open>m\<close> has the signature of \<open>m\<close> (so when the
  name is used once), and every definition that has the name of the class has the
  signature of the class, the FileSignatureSet holds \<open>m\<close> twice, in the method mapping
  under the key of the class and as a top-level key bound to the signature string of \<open>m\<close>.
  A change of the signature of \<open>m\<close> is then a difference at both keys: a top-level value
  with another signature string, and a class value whose mapping binds \<open>m\<close> to anything
  else, compare unequal to the recorded ones.
\<close>

theorem method_recorded_twice:
  assumes "ClassDef c body \<in> set stmts"
    and "FunctionDef m args mbody \<in> set body"
    and "\<forall>n \<in> set (nodes_of (Other stmts)). is_definition n \<and> node_name n = m
           \<longrightarrow> node_signature n = FuncSig (get_function_signature m args)"
    and "\<forall>n \<in> set (nodes_of (Other stmts)). is_definition n \<and> node_name n = c
           \<longrightarrow> node_signature n = ClassSig (get_class_signature body)"
  shows "map_of (extract_tree (Other stmts)) m = Some (FuncSig (get_function_signature m args))
     \<and> map_of (extract_tree (Other stmts)) c = Some (ClassSig (get_class_signature body))
     \<and> map_of (get_class_signature body) m = Some (get_function_signature m args)
     \<and> (changed \<noteq> get_function_signature m args \<longrightarrow>
          \<not> signature_eq (FuncSig changed) (FuncSig (get_function_signature m args)))
     \<and> (map_of methods' m \<noteq> Some (get_function_signature m args) \<longrightarrow>
          \<not> signature_eq (ClassSig methods') (ClassSig (get_class_signature body)))"
proof -
  let ?cls = "ClassDef c body" and ?fn = "FunctionDef m args mbody"
  have sub: "set (nodes_of ?cls) \<subseteq> set (nodes_of (Other stmts))"
    using assms(1) child_nodes_of [of ?cls "Other stmts"] by simp
  have cls: "?cls \<in> set (nodes_of (Other stmts))"
    using sub self_in_nodes_of [of ?cls] by blast
  have "set (nodes_of ?fn) \<subseteq> set (nodes_of ?cls)"
    using assms(2) child_nodes_of [of ?fn ?cls] by simp
  then have fn: "?fn \<in> set (nodes_of (Other stmts))"
    using sub self_in_nodes_of [of ?fn] by blast
  have body_sub: "set body \<subseteq> set (nodes_of (Other stmts))"
  proof
    fix n
    assume "n \<in> set body"
    then have "set (nodes_of n) \<subseteq> set (nodes_of ?cls)"
      using child_nodes_of [of n ?cls] by simp
    then show "n \<in> set (nodes_of (Other stmts))"
      using sub self_in_nodes_of [of n] by blast
  qed
  have top_m: "map_of (extract_tree (Other stmts)) m = Some (FuncSig (get_function_signature m args))"
    using fn assms(3) by (intro map_of_extract_tree [of ?fn]) auto
  have top_c: "map_of (extract_tree (Other stmts)) c = Some (ClassSig (get_class_signature body))"
    using cls assms(4) by (intro map_of_extract_tree [of ?cls]) auto
  have is_def: "is_definition n" if "is_function n" for n
    using that by (cases n) simp_all
  have in_class: "map_of (get_class_signature body) m = Some (get_function_signature m args)"
  proof (rule map_of_get_class_signature [OF assms(2)])
    fix n
    assume "n \<in> set body" and "is_function n" and "node_name n = m"
    then show "node_signature n = FuncSig (get_function_signature m args)"
      using assms(3) body_sub is_def by blast
  qed
  have "\<not> signature_eq (ClassSig methods') (ClassSig (get_class_signature body))"
    if "map_of methods' m \<noteq> Some (get_function_signature m args)"
    using that in_class by (auto simp: dict_eq_map_of)
  then show ?thesis
    using top_m top_c in_class by simp
qed

theorem method_recorded_twice_witness:
  "map_of (extract_tree (Other [ClassDef ''C'' [FunctionDef ''m'' [''self'', ''a''] []]])) ''m''
     = Some (FuncSig ''def m(self, a)'')
   \<and> map_of (extract_tree (Other [ClassDef ''C'' [FunctionDef ''m'' [''self'', ''a''] []]])) ''C''
     = Some (ClassSig [(''m'', ''def m(self, a)'')])
   \<and> map_of (get_class_signature [FunctionDef ''m'' [''self'', ''a''] []]) ''m''
     = Some ''def m(self, a)''
   \<and> \<not> signature_eq (FuncSig ''def m(self)'') (FuncSig ''def m(self, a)'')
   \<and> \<not> signature_eq (ClassSig [(''m'', ''def m(self)'')]) (ClassSig [(''m'', ''def m(self, a)'')])"
proof -
  let ?body = "[FunctionDef ''m'' [''self'', ''a''] []]"
  have sig: "get_function_signature ''m'' [''self'', ''a''] = ''def m(self, a)''"
    by (simp add: get_function_signature_def)
  have cls: "get_class_signature ?body = [(''m'', ''def m(self, a)'')]"
    by (simp add: get_class_signature_def add_method_def sig)
  have h1: "ClassDef ''C'' ?body \<in> set [ClassDef ''C'' ?body]"
    by simp
  have h2: "FunctionDef ''m'' [''self'', ''a''] [] \<in> set ?body"
    by simp
  have h3: "\<forall>n \<in> set (nodes_of (Other [ClassDef ''C'' ?body])).
      is_definition n \<and> node_name n = ''m''
        \<longrightarrow> node_signature n = FuncSig (get_function_signature ''m'' [''self'', ''a''])"
    by simp
  have h4: "\<forall>n \<in> set (nodes_of (Other [ClassDef ''C'' ?body])).
      is_definition n \<and> node_name n = ''C''
        \<longrightarrow> node_signature n = ClassSig (get_class_signature ?body)"
    by simp
  have c1: "''def m(self)'' \<noteq> ''def m(self, a)''"
    by simp
  have c2: "map_of [(''m'', ''def m(self)'')] ''m'' \<noteq> Some ''def m(self, a)''"
    by simp
  show ?thesis
    using c1 c2
      method_recorded_twice [OF h1 h2 h3 h4, of "''def m(self)''" "[(''m'', ''def m(self)'')]"]
    by (simp only: sig cls simp_thms)
qed

section \<open>Properties of the diff classifier\<close>

text \<open>
  The entries of the old snapshot are read through \<open>old_signatures.get(file, {})\<close> for
  the files of the new snapshot only: the old entries of all other files play no role
  in the result.
\<close>

lemma get_or_empty_filter:
  "k \<in> K \<Longrightarrow> get_or_empty (filter (\<lambda>entry. fst entry \<in> K) old) k = get_or_empty old k"
  by (induction old) (auto simp: get_or_empty_def)

lemma check_file_filter:
  "fst entry \<in> K \<Longrightarrow> check_file (filter (\<lambda>entry. fst entry \<in> K) old) entry t = check_file old entry t"
  by (simp add: check_file_def get_or_empty_filter)

lemma fold_check_file_filter:
  "fst ` set new \<subseteq> K
     \<Longrightarrow> fold (check_file (filter (\<lambda>entry. fst entry \<in> K) old)) new t = fold (check_file old) new t"
  by (induction new arbitrary: t) (simp_all add: check_file_filter)

lemma old_only_files_ignored:
  "tally_changes (filter (\<lambda>entry. fst entry \<in> fst ` set new) old) new = tally_changes old new"
  by (simp add: tally_changes_def fold_check_file_filter)

section \<open>The claims about the diff classifier\<close>

text \<open>
  C1 at the input \<open>old = {"/pkg/gone.py": {"foo": "def foo()"}}\<close>, \<open>new = {}\<close>: the
  loop of \<open>detect_changes\<close> runs over the files of \<open>new\<close> only, so the function of the
  deleted file is not visited. No change record is emitted, the counter of breaking
  changes stays 0, and the version is returned as it was.
\<close>

theorem deleted_file_not_visited:
  "tally_changes [(''/pkg/gone.py'', [(''foo'', FuncSig ''def foo()'')])] []
     = \<lparr>major_count = 0, minor_count = 0, patch_count = 0, changes = []\<rparr>
   \<and> detect_changes ''1.0.0'' [(''/pkg/gone.py'', [(''foo'', FuncSig ''def foo()'')])] []
     = Inr (''1.0.0'', [])"
  by (simp add: tally_changes_def detect_changes_def) code_simp

section \<open>Properties of the version engine\<close>

declare str_nat.simps [simp del]

lemma split_not_Nil: "split sep s \<noteq> []"
  by (induction s) (auto split: list.splits)

lemma join_split: "join [sep] (split sep s) = s"
proof (induction s)
  case Nil
  show ?case by simp
next
  case (Cons c cs)
  obtain part parts where parts: "split sep cs = part # parts"
    using split_not_Nil [of sep cs] by (cases "split sep cs") auto
  show ?case
    using Cons.IH by (cases parts) (simp_all add: parts)
qed

lemma digit_char_value: "is_digit c \<Longrightarrow> digit_char (digit_value c) = c"
  by (simp add: is_digit_def digit_char_def digit_value_def)

lemma digit_value_less: "is_digit c \<Longrightarrow> digit_value c < 10"
  by (auto simp: is_digit_def digit_value_def)

lemma digit_value_pos: "is_digit c \<Longrightarrow> c \<noteq> CHR ''0'' \<Longrightarrow> 0 < digit_value c"
proof -
  assume d: "is_digit c" and nz: "c \<noteq> CHR ''0''"
  have "(of_char c :: nat) \<noteq> 48"
  proof
    assume "(of_char c :: nat) = 48"
    then have "(of_char c :: nat) = of_char (CHR ''0'')"
      by simp
    then show False
      using nz by (simp only: of_char_eq_iff)
  qed
  then show ?thesis
    using d by (simp add: is_digit_def digit_value_def)
qed

text \<open>The value of a run of digits, as \<open>parse_nat\<close> computes it.\<close>

lemma str_nat_digits:
  assumes "s \<noteq> []" and "list_all is_digit s" and "1 < length s \<longrightarrow> hd s \<noteq> CHR ''0''"
  shows "str_nat (foldl (\<lambda>acc c. 10 * acc + digit_value c) 0 s) = s
     \<and> (hd s \<noteq> CHR ''0'' \<longrightarrow> 0 < foldl (\<lambda>acc c. 10 * acc + digit_value c) 0 s)"
  using assms
proof (induction s rule: rev_induct)
  case Nil
  then show ?case by simp
next
  case (snoc d ds)
  let ?val = "foldl (\<lambda>acc c. 10 * acc + digit_value c) 0"
  have d: "is_digit d" and ds: "list_all is_digit ds"
    using snoc.prems(2) by simp_all
  show ?case
  proof (cases "ds = []")
    case True
    then have "?val (ds @ [d]) = digit_value d"
      by simp
    then show ?thesis
      using True d digit_value_less [OF d] digit_char_value [OF d] digit_value_pos [OF d]
      by (simp add: str_nat.simps [of "digit_value d"])
  next
    case False
    then have hd: "hd ds \<noteq> CHR ''0''"
      using snoc.prems(3) by (cases ds) auto
    have ih: "str_nat (?val ds) = ds" and pos: "0 < ?val ds"
      using snoc.IH [OF False ds] hd by simp_all
    have val: "?val (ds @ [d]) = 10 * ?val ds + digit_value d"
      by simp
    have "str_nat (10 * ?val ds + digit_value d)
        = str_nat ((10 * ?val ds + digit_value d) div 10)
          @ [digit_char ((10 * ?val ds + digit_value d) mod 10)]"
      using pos by (subst str_nat.simps) simp
    also have "\<dots> = ds @ [d]"
      using digit_value_less [OF d] digit_char_value [OF d] ih by simp
    finally show ?thesis
      using pos val by simp
  qed
qed

lemma str_nat_parse_nat: "parse_nat s = Some n \<Longrightarrow> str_nat n = s"
  using str_nat_digits [of s] by (auto simp: parse_nat_def split: if_splits)

lemma str_version_parse_version:
  assumes "parse_version s = Some v"
  shows "str_version v = s"
proof -
  obtain a b c x y z where parts: "split (CHR ''.'') s = [a, b, c]"
    and x: "parse_nat a = Some x" and y: "parse_nat b = Some y" and z: "parse_nat c = Some z"
    and v: "v = Version x y z"
    using assms by (auto simp: parse_version_def split: list.splits option.splits)
  have "s = join ''.'' [a, b, c]"
    using join_split [of "CHR ''.''" s] by (simp add: parts)
  then show ?thesis
    using str_nat_parse_nat [OF x] str_nat_parse_nat [OF y] str_nat_parse_nat [OF z]
    by (simp add: v)
qed

section \<open>The claim about the version engine\<close>

text \<open>
  C5. For every tally of non-negative counters and every current version that parses to
  \<open>a.b.c\<close>, \<open>increment_version\<close> returns one bump: \<open>(a+1).0.0\<close> when the counter of
  breaking changes is positive; else \<open>a.(b+1).0\<close> when the counter of additions is
  positive; else \<open>a.b.(c+1)\<close> when the patch counter is positive; else the version string
  as it was. The size of a counter plays no role beyond being positive.
\<close>

theorem increment_version_one_bump:
  assumes "parse_version cur = Some (Version a b c)"
    and "0 \<le> major" and "0 \<le> minor" and "0 \<le> patch"
  shows "increment_version cur major minor patch =
     Inr (if 0 < major then str_version (Version (a + 1) 0 0)
          else if 0 < minor then str_version (Version a (b + 1) 0)
          else if 0 < patch then str_version (Version a b (c + 1))
          else cur)"
  using assms str_version_parse_version [OF assms(1)]
  by (auto simp: increment_version_def)

theorem increment_version_one_bump_witness:
  "parse_version ''1.9.3'' = Some (Version 1 9 3)
   \<and> increment_version ''1.9.3'' 7 2 0 = Inr ''2.0.0''
   \<and> increment_version ''1.9.3'' 0 40 1 = Inr ''1.10.0''
   \<and> increment_version ''1.9.3'' 0 0 1 = Inr ''1.9.4''
   \<and> increment_version ''1.9.3'' 0 0 0 = Inr ''1.9.3''"
proof -
  have p: "parse_version ''1.9.3'' = Some (Version 1 9 3)"
    by code_simp
  have s1: "str_version (Version (1 + 1) 0 0) = ''2.0.0''"
    and s2: "str_version (Version 1 (9 + 1) 0) = ''1.10.0''"
    and s3: "str_version (Version 1 9 (3 + 1)) = ''1.9.4''"
    by code_simp+
  show ?thesis
    using p s1 s2 s3
      increment_version_one_bump [OF p, of 7 2 0]
      increment_version_one_bump [OF p, of 0 40 1]
      increment_version_one_bump [OF p, of 0 0 1]
      increment_version_one_bump [OF p, of 0 0 0]
    by simp
qed

section \<open>Properties of the scanner and the orchestrator\<close>

lemma scan_files_error:
  "scan_files root files api = Inl e
     \<Longrightarrow> \<exists>file. (file, Invalid) \<in> set files \<and> selected file \<and> e = SyntaxError (path_join root file)"
proof (induction files arbitrary: api)
  case Nil
  then show ?case by simp
next
  case (Cons entry files)
  obtain name src where entry: "entry = (name, src)"
    by (cases entry)
  show ?case
  proof (cases "selected name")
    case False
    then have "scan_files root files api = Inl e"
      using Cons.prems by (simp add: entry)
    then show ?thesis
      using Cons.IH by fastforce
  next
    case True
    show ?thesis
    proof (cases src)
      case Invalid
      then have "e = SyntaxError (path_join root name)"
        using Cons.prems True by (simp add: entry)
      then show ?thesis
        using True Invalid entry by auto
    next
      case (Module tree)
      then have "scan_files root files
          (AList.update (path_join root name) (extract_tree tree) api) = Inl e"
        using Cons.prems True by (simp add: entry)
      then show ?thesis
        using Cons.IH by fastforce
    qed
  qed
qed

lemma scan_package_error:
  "scan_package package api = Inl e
     \<Longrightarrow> \<exists>root files file. (root, files) \<in> set package \<and> (file, Invalid) \<in> set files
           \<and> selected file \<and> e = SyntaxError (path_join root file)"
proof (induction package arbitrary: api)
  case Nil
  then show ?case by simp
next
  case (Cons dir dirs)
  obtain root files where dir: "dir = (root, files)"
    by (cases dir)
  show ?case
  proof (cases "scan_files root files api")
    case (Inl e')
    then have "e' = e"
      using Cons.prems by (simp add: dir)
    then show ?thesis
      using scan_files_error [OF Inl] dir by fastforce
  next
    case (Inr scanned)
    then have "scan_package dirs scanned = Inl e"
      using Cons.prems by (simp add: dir)
    then show ?thesis
      using Cons.IH by fastforce
  qed
qed

lemma scan_files_invalid:
  "(file, Invalid) \<in> set files \<Longrightarrow> selected file \<Longrightarrow> \<exists>e. scan_files root files api = Inl e"
proof (induction files arbitrary: api)
  case Nil
  then show ?case by simp
next
  case (Cons entry files)
  obtain name src where entry: "entry = (name, src)"
    by (cases entry)
  show ?case
  proof (cases "selected name")
    case False
    then have "(file, Invalid) \<in> set files"
      using Cons.prems entry by auto
    then show ?thesis
      using Cons.IH Cons.prems(2) False by (simp add: entry)
  next
    case True
    show ?thesis
    proof (cases src)
      case Invalid
      then show ?thesis
        using True by (simp add: entry)
    next
      case (Module tree)
      then have "(file, Invalid) \<in> set files"
        using Cons.prems entry by auto
      then show ?thesis
        using Cons.IH Cons.prems(2) True Module by (simp add: entry)
    qed
  qed
qed

lemma scan_package_invalid:
  "(root, files) \<in> set package \<Longrightarrow> (file, Invalid) \<in> set files \<Longrightarrow> selected file
     \<Longrightarrow> \<exists>e. scan_package package api = Inl e"
proof (induction package arbitrary: api)
  case Nil
  then show ?case by simp
next
  case (Cons dir dirs)
  obtain root' files' where dir: "dir = (root', files')"
    by (cases dir)
  show ?case
  proof (cases "scan_files root' files' api")
    case (Inl e)
    then show ?thesis
      by (simp add: dir)
  next
    case (Inr scanned)
    then have "(root, files) \<noteq> (root', files')"
      using scan_files_invalid [OF Cons.prems(2,3), of root' api] by auto
    then have "(root, files) \<in> set dirs"
      using Cons.prems(1) dir by auto
    then show ?thesis
      using Cons.IH Cons.prems(2,3) Inr by (simp add: dir)
  qed
qed

text \<open>The keys after a scan: the keys the scan started from and the paths of the selected files.\<close>

lemma scan_files_key_set:
  "scan_files root files api = Inr scanned
     \<Longrightarrow> fst ` set scanned
           = fst ` set api \<union> {path_join root file |file. file \<in> fst ` set files \<and> selected file}"
proof (induction files arbitrary: api)
  case Nil
  then show ?case by simp
next
  case (Cons entry files)
  obtain name src where entry: "entry = (name, src)"
    by (cases entry)
  show ?case
  proof (cases "selected name")
    case False
    then have "scan_files root files api = Inr scanned"
      using Cons.prems by (simp add: entry)
    then show ?thesis
      using Cons.IH False entry by auto
  next
    case True
    show ?thesis
    proof (cases src)
      case Invalid
      then show ?thesis
        using Cons.prems True by (simp add: entry)
    next
      case (Module tree)
      then have "scan_files root files
          (AList.update (path_join root name) (extract_tree tree) api) = Inr scanned"
        using Cons.prems True by (simp add: entry)
      then have "fst ` set scanned
          = fst ` set (AList.update (path_join root name) (extract_tree tree) api)
            \<union> {path_join root file |file. file \<in> fst ` set files \<and> selected file}"
        by (rule Cons.IH)
      then show ?thesis
        using True entry by (auto simp: dom_update)
    qed
  qed
qed

lemma scan_package_key_set:
  "scan_package package api = Inr scanned
     \<Longrightarrow> fst ` set scanned
           = fst ` set api
             \<union> {path_join root file |root files file.
                  (root, files) \<in> set package \<and> file \<in> fst ` set files \<and> selected file}"
proof (induction package arbitrary: api)
  case Nil
  then show ?case by simp
next
  case (Cons dir dirs)
  obtain root files where dir: "dir = (root, files)"
    by (cases dir)
  show ?case
  proof (cases "scan_files root files api")
    case (Inl e)
    then show ?thesis
      using Cons.prems by (simp add: dir)
  next
    case (Inr mid)
    then have "scan_package dirs mid = Inr scanned"
      using Cons.prems by (simp add: dir)
    then have "fst ` set scanned
        = fst ` set mid
          \<union> {path_join root file |root files file.
               (root, files) \<in> set dirs \<and> file \<in> fst ` set files \<and> selected file}"
      by (rule Cons.IH)
    moreover have "{path_join r f |r fs f. (r, fs) \<in> set (dir # dirs) \<and> f \<in> fst ` set fs \<and> selected f}
        = {path_join root f |f. f \<in> fst ` set files \<and> selected f}
          \<union> {path_join r f |r fs f. (r, fs) \<in> set dirs \<and> f \<in> fst ` set fs \<and> selected f}"
      unfolding dir by (simp only: set_simps) blast
    ultimately show ?thesis
      using scan_files_key_set [OF Inr] by (simp add: Un_assoc)
  qed
qed

lemma run_unchanged:
  assumes "scan_package package old = Inr scanned" and "snapshot_eq old scanned"
  shows "run encode package st \<lparr>current_version = v, api_signatures = old, dry_run = d\<rparr>
     = (Inr \<lparr>current_version = v, api_signatures = scanned, dry_run = d\<rparr>, st)"
  using assms by (simp add: run_def)

section \<open>The claims about the scanner and the orchestrator\<close>

text \<open>
  C2 at the input: the loaded snapshot has the keys \<open>/pkg/gone.py\<close> and
  \<open>/pkg/kept.py\<close>, and the package now holds \<open>kept.py\<close> only, unchanged. The scan
  assigns into the loaded dictionary, so the key of the deleted file stays in the
  snapshot after the scan; \<open>run\<close> then finds the snapshot equal to the old one and ends
  with "No changes detected", the store untouched.
\<close>

theorem stale_key_survives_scan:
  "scan_package
     [(''/pkg'', [(''kept.py'', Module (Other [FunctionDef ''f'' [] []]))])]
     [(''/pkg/gone.py'', [(''g'', FuncSig ''def g()'')]),
      (''/pkg/kept.py'', [(''f'', FuncSig ''def f()'')])]
     = Inr [(''/pkg/gone.py'', [(''g'', FuncSig ''def g()'')]),
            (''/pkg/kept.py'', [(''f'', FuncSig ''def f()'')])]
   \<and> run encode
       [(''/pkg'', [(''kept.py'', Module (Other [FunctionDef ''f'' [] []]))])]
       st
       \<lparr>current_version = ''1.0.0'',
        api_signatures = [(''/pkg/gone.py'', [(''g'', FuncSig ''def g()'')]),
                          (''/pkg/kept.py'', [(''f'', FuncSig ''def f()'')])],
        dry_run = False\<rparr>
     = (Inr \<lparr>current_version = ''1.0.0'',
             api_signatures = [(''/pkg/gone.py'', [(''g'', FuncSig ''def g()'')]),
                               (''/pkg/kept.py'', [(''f'', FuncSig ''def f()'')])],
             dry_run = False\<rparr>, st)"
proof -
  have scan: "scan_package
     [(''/pkg'', [(''kept.py'', Module (Other [FunctionDef ''f'' [] []]))])]
     [(''/pkg/gone.py'', [(''g'', FuncSig ''def g()'')]),
      (''/pkg/kept.py'', [(''f'', FuncSig ''def f()'')])]
     = Inr [(''/pkg/gone.py'', [(''g'', FuncSig ''def g()'')]),
            (''/pkg/kept.py'', [(''f'', FuncSig ''def f()'')])]"
    by code_simp
  have same: "snapshot_eq
     [(''/pkg/gone.py'', [(''g'', FuncSig ''def g()'')]),
      (''/pkg/kept.py'', [(''f'', FuncSig ''def f()'')])]
     [(''/pkg/gone.py'', [(''g'', FuncSig ''def g()'')]),
      (''/pkg/kept.py'', [(''f'', FuncSig ''def f()'')])]"
    by code_simp
  show ?thesis
    by (rule conjI [OF scan run_unchanged [OF scan same]])
qed

text \<open>
  C6. A run in dry-run mode leaves the store as it was, however the run ends and
  whatever the scan finds: the stored version, the stored signatures and the stored
  change list are the ones from before the run. So does the command \<open>check\<close>, which
  constructs the inspector with \<open>dry_run=True\<close>.
\<close>

theorem dry_run_never_writes:
  assumes "dry_run self"
  shows "snd (run encode package st self) = st
     \<and> snd (check encode decode package st) = st"
proof -
  have dry: "snd (run encode package st s) = st" if "dry_run s" for s
    using that
    by (simp add: run_def save_version_def Let_def split: sum.splits prod.splits)
  have "snd (check encode decode package st) = st"
  proof (cases "init decode st True")
    case (Inl e)
    then show ?thesis
      by (simp add: check_def)
  next
    case (Inr s)
    then have "dry_run s"
      by (auto simp: init_def split: sum.splits)
    then show ?thesis
      using dry Inr by (simp add: check_def)
  qed
  then show ?thesis
    using dry [OF assms] by simp
qed

theorem dry_run_never_writes_witness:
  "dry_run \<lparr>current_version = ''1.0.0'', api_signatures = [], dry_run = True\<rparr>
   \<and> detect_changes ''1.0.0'' [] [(''/pkg/a.py'', [(''f'', FuncSig ''def f()'')])]
       = Inr (''1.1.0'', [''Added f in /pkg/a.py''])
   \<and> snd (run encode_signatures
            [(''/pkg'', [(''a.py'', Module (Other [FunctionDef ''f'' [] []]))])]
            (TomlFile \<lparr>project = Some \<lparr>version_entry = Some ''1.0.0'', other_entries = []\<rparr>,
                       tool = None, other_tables = []\<rparr>)
            \<lparr>current_version = ''1.0.0'', api_signatures = [], dry_run = True\<rparr>)
       = TomlFile \<lparr>project = Some \<lparr>version_entry = Some ''1.0.0'', other_entries = []\<rparr>,
                   tool = None, other_tables = []\<rparr>
   \<and> snd (check encode_signatures decode_signatures
            [(''/pkg'', [(''a.py'', Module (Other [FunctionDef ''f'' [] []]))])]
            (TomlFile \<lparr>project = Some \<lparr>version_entry = Some ''1.0.0'', other_entries = []\<rparr>,
                       tool = None, other_tables = []\<rparr>))
       = TomlFile \<lparr>project = Some \<lparr>version_entry = Some ''1.0.0'', other_entries = []\<rparr>,
                   tool = None, other_tables = []\<rparr>"
proof -
  have h: "dry_run \<lparr>current_version = ''1.0.0'', api_signatures = [], dry_run = True\<rparr>"
    by simp
  have d: "detect_changes ''1.0.0'' [] [(''/pkg/a.py'', [(''f'', FuncSig ''def f()'')])]
      = Inr (''1.1.0'', [''Added f in /pkg/a.py''])"
    by code_simp
  show ?thesis
    by (intro conjI h d dry_run_never_writes [OF h, THEN conjunct1]
          dry_run_never_writes [OF h, THEN conjunct2])
qed

text \<open>
  C8. When a selected file of the package is not syntactically valid, the run ends with
  the \<open>SyntaxError\<close> that \<open>ast.parse\<close> raises for such a file of the package, and the
  store is the one from before the run: nothing is persisted.
\<close>

theorem parse_error_aborts_run:
  assumes "(root, files) \<in> set package"
    and "(file, Invalid) \<in> set files"
    and "selected file"
  shows "\<exists>root' files' file'.
           (root', files') \<in> set package \<and> (file', Invalid) \<in> set files' \<and> selected file'
           \<and> run encode package st self = (Inl (SyntaxError (path_join root' file')), st)"
proof -
  obtain e where e: "scan_package package (api_signatures self) = Inl e"
    using scan_package_invalid [OF assms] by blast
  then obtain root' files' file' where "(root', files') \<in> set package"
    and "(file', Invalid) \<in> set files'" and "selected file'"
    and "e = SyntaxError (path_join root' file')"
    using scan_package_error [OF e] by blast
  then show ?thesis
    using e by (auto simp: run_def)
qed

theorem parse_error_aborts_run_witness:
  "(''/pkg'', [(''ok.py'', Module (Other [])), (''bad.py'', Invalid)])
     \<in> set [(''/pkg'', [(''ok.py'', Module (Other [])), (''bad.py'', Invalid)])]
   \<and> (''bad.py'', Invalid) \<in> set [(''ok.py'', Module (Other [])), (''bad.py'', Invalid)]
   \<and> selected ''bad.py''
   \<and> (\<exists>root' files' file'.
         (root', files') \<in> set [(''/pkg'', [(''ok.py'', Module (Other [])), (''bad.py'', Invalid)])]
         \<and> (file', Invalid) \<in> set files' \<and> selected file'
         \<and> run encode_signatures
               [(''/pkg'', [(''ok.py'', Module (Other [])), (''bad.py'', Invalid)])]
               (TomlFile \<lparr>project = Some \<lparr>version_entry = Some ''1.0.0'', other_entries = []\<rparr>,
                          tool = None, other_tables = []\<rparr>)
               \<lparr>current_version = ''1.0.0'', api_signatures = [], dry_run = False\<rparr>
             = (Inl (SyntaxError (path_join root' file')),
                TomlFile \<lparr>project = Some \<lparr>version_entry = Some ''1.0.0'', other_entries = []\<rparr>,
                          tool = None, other_tables = []\<rparr>))"
proof -
  have h1: "(''/pkg'', [(''ok.py'', Module (Other [])), (''bad.py'', Invalid)])
     \<in> set [(''/pkg'', [(''ok.py'', Module (Other [])), (''bad.py'', Invalid)])]"
    by simp
  have h2: "(''bad.py'', Invalid) \<in> set [(''ok.py'', Module (Other [])), (''bad.py'', Invalid)]"
    by simp
  have h3: "selected ''bad.py''"
    by (simp add: selected_def endswith_def startswith_def)
  show ?thesis
    by (intro conjI h1 h2 h3 parse_error_aborts_run [OF h1 h2 h3])
qed

text \<open>
  Against C9 as stated: the command \<open>update\<close> on a package with one new function and no
  \<open>pyproject.toml\<close>. The run is not a dry run and the new snapshot differs from the
  empty old one, yet nothing is persisted: there is no file after the run either.
\<close>

theorem no_store_counterexample:
  "update encode_signatures decode_signatures
     [(''/pkg'', [(''a.py'', Module (Other [FunctionDef ''f'' [] []]))])] NoFile
     = (Inr \<lparr>current_version = ''0.1.0'',
             api_signatures = [(''/pkg/a.py'', [(''f'', FuncSig ''def f()'')])],
             dry_run = False\<rparr>, NoFile)"
  by code_simp

text \<open>
  C9, amended. For every run that is not a dry run, whose scan and version engine end
  without an error and whose new snapshot differs from the old one: when the store file
  exists and has a \<open>project\<close> table, the new version string, the serialised new snapshot
  and the change list are written together, in the one write of the file; when the file
  has no \<open>project\<close> table, or there is no file, nothing is written.
\<close>

theorem changed_snapshot_is_persisted:
  assumes "\<not> dry_run self"
    and "scan_package package (api_signatures self) = Inr scanned"
    and "\<not> snapshot_eq (api_signatures self) scanned"
    and "detect_changes (current_version self) (api_signatures self) scanned
           = Inr (new_version, change_list)"
  shows "(project data = Some p \<longrightarrow>
            run encode package (TomlFile data) self =
              (Inr (self\<lparr>api_signatures := scanned\<rparr>),
               TomlFile
                 (data\<lparr>project := Some (p\<lparr>version_entry := Some new_version\<rparr>),
                       tool := Some
                         ((case tool data of
                             None \<Rightarrow> \<lparr>ast_inspector = None, other_tools = []\<rparr>
                           | Some t \<Rightarrow> t)
                          \<lparr>ast_inspector := Some
                             \<lparr>api_signatures_entry = Some (encode scanned),
                              last_changes_entry = Some change_list\<rparr>\<rparr>)\<rparr>)))
     \<and> (project data = None \<longrightarrow>
            run encode package (TomlFile data) self
              = (Inr (self\<lparr>api_signatures := scanned\<rparr>), TomlFile data))
     \<and> run encode package NoFile self = (Inr (self\<lparr>api_signatures := scanned\<rparr>), NoFile)"
  using assms by (simp add: run_def save_version_def)

theorem changed_snapshot_is_persisted_witness:
  "\<not> dry_run \<lparr>current_version = ''1.0.0'', api_signatures = [], dry_run = False\<rparr>
   \<and> scan_package [(''/pkg'', [(''a.py'', Module (Other [FunctionDef ''f'' [] []]))])] []
       = Inr [(''/pkg/a.py'', [(''f'', FuncSig ''def f()'')])]
   \<and> \<not> snapshot_eq [] [(''/pkg/a.py'', [(''f'', FuncSig ''def f()'')])]
   \<and> detect_changes ''1.0.0'' [] [(''/pkg/a.py'', [(''f'', FuncSig ''def f()'')])]
       = Inr (''1.1.0'', [''Added f in /pkg/a.py''])
   \<and> run encode_signatures
         [(''/pkg'', [(''a.py'', Module (Other [FunctionDef ''f'' [] []]))])]
         (TomlFile \<lparr>project = Some \<lparr>version_entry = Some ''1.0.0'', other_entries = []\<rparr>,
                    tool = None, other_tables = []\<rparr>)
         \<lparr>current_version = ''1.0.0'', api_signatures = [], dry_run = False\<rparr>
       = (Inr \<lparr>current_version = ''1.0.0'',
               api_signatures = [(''/pkg/a.py'', [(''f'', FuncSig ''def f()'')])],
               dry_run = False\<rparr>,
          TomlFile
            \<lparr>project = Some \<lparr>version_entry = Some ''1.1.0'', other_entries = []\<rparr>,
             tool = Some
               \<lparr>ast_inspector = Some
                  \<lparr>api_signatures_entry =
                     Some (encode_signatures [(''/pkg/a.py'', [(''f'', FuncSig ''def f()'')])]),
                   last_changes_entry = Some [''Added f in /pkg/a.py'']\<rparr>,
                other_tools = []\<rparr>,
             other_tables = []\<rparr>)
   \<and> encode_signatures [(''/pkg/a.py'', [(''f'', FuncSig ''def f()'')])]
       = ''eyIvcGtnL2EucHkiOiB7ImYiOiAiZGVmIGYoKSJ9fQ==''"
proof -
  let ?self = "\<lparr>current_version = ''1.0.0'', api_signatures = [], dry_run = False\<rparr>"
  let ?data = "\<lparr>project = Some \<lparr>version_entry = Some ''1.0.0'', other_entries = []\<rparr>,
                tool = None, other_tables = []\<rparr>"
  have h1: "\<not> dry_run ?self"
    by simp
  have h2: "scan_package [(''/pkg'', [(''a.py'', Module (Other [FunctionDef ''f'' [] []]))])]
      (api_signatures ?self) = Inr [(''/pkg/a.py'', [(''f'', FuncSig ''def f()'')])]"
    by code_simp
  have h3: "\<not> snapshot_eq (api_signatures ?self) [(''/pkg/a.py'', [(''f'', FuncSig ''def f()'')])]"
    by code_simp
  have h4: "detect_changes (current_version ?self) (api_signatures ?self)
      [(''/pkg/a.py'', [(''f'', FuncSig ''def f()'')])]
      = Inr (''1.1.0'', [''Added f in /pkg/a.py''])"
    by code_simp
  have enc: "encode_signatures [(''/pkg/a.py'', [(''f'', FuncSig ''def f()'')])]
      = ''eyIvcGtnL2EucHkiOiB7ImYiOiAiZGVmIGYoKSJ9fQ==''"
    by code_simp
  have p: "project ?data = Some \<lparr>version_entry = Some ''1.0.0'', other_entries = []\<rparr>"
    by simp
  show ?thesis
    using h1 h2 h3 h4 enc p
      changed_snapshot_is_persisted [OF h1 h2 h3 h4, of ?data
        "\<lparr>version_entry = Some ''1.0.0'', other_entries = []\<rparr>" encode_signatures]
    by simp
qed

text \<open>
  Against C7 as stated: a store whose signatures field holds \<open>not base64!\<close>, nine
  characters of the alphabet, which is no complete group of four. The load ends with the
  error of \<open>base64.b64decode\<close>, not with the empty snapshot.
\<close>

theorem undecodable_signatures_counterexample:
  "load_api_signatures decode_signatures
     (TomlFile
        \<lparr>project = Some \<lparr>version_entry = Some ''1.0.0'', other_entries = []\<rparr>,
         tool = Some
           \<lparr>ast_inspector = Some
              \<lparr>api_signatures_entry = Some ''not base64!'', last_changes_entry = Some []\<rparr>,
            other_tools = []\<rparr>,
         other_tables = []\<rparr>)
     = Inl Base64Error"
  by code_simp

text \<open>
  C7, amended. For every existing store whose signatures field is present, not empty and
  undecodable, loading the previous snapshot ends with the error of the decoding, and
  so does the construction of the inspector: no run starts. The empty snapshot is the
  silent default only where the field is absent or empty, or where there is no file.
\<close>

theorem undecodable_signatures_raise:
  "(encoded_signatures data \<noteq> [] \<and> decode (encoded_signatures data) = Inl e \<longrightarrow>
      load_api_signatures decode (TomlFile data) = Inl e
      \<and> init decode (TomlFile data) dry = Inl e)
   \<and> (encoded_signatures data = [] \<longrightarrow> load_api_signatures decode (TomlFile data) = Inr [])
   \<and> load_api_signatures decode NoFile = Inr []"
  by (simp add: load_api_signatures_def init_def load_version_def split: option.splits)

theorem undecodable_signatures_raise_witness:
  "encoded_signatures
     \<lparr>project = None,
      tool = Some \<lparr>ast_inspector = Some \<lparr>api_signatures_entry = Some ''e30'',
                                         last_changes_entry = None\<rparr>,
                  other_tools = []\<rparr>,
      other_tables = []\<rparr> = ''e30''
   \<and> decode_signatures ''e30'' = Inl Base64Error
   \<and> load_api_signatures decode_signatures
       (TomlFile
          \<lparr>project = None,
           tool = Some \<lparr>ast_inspector = Some \<lparr>api_signatures_entry = Some ''e30'',
                                              last_changes_entry = None\<rparr>,
                       other_tools = []\<rparr>,
           other_tables = []\<rparr>) = Inl Base64Error
   \<and> init decode_signatures
       (TomlFile
          \<lparr>project = None,
           tool = Some \<lparr>ast_inspector = Some \<lparr>api_signatures_entry = Some ''e30'',
                                              last_changes_entry = None\<rparr>,
                       other_tools = []\<rparr>,
           other_tables = []\<rparr>) True = Inl Base64Error
   \<and> load_api_signatures decode_signatures
       (TomlFile \<lparr>project = None, tool = None, other_tables = []\<rparr>) = Inr []"
proof -
  let ?bad = "\<lparr>project = None,
      tool = Some \<lparr>ast_inspector = Some \<lparr>api_signatures_entry = Some ''e30'',
                                         last_changes_entry = None\<rparr>,
                  other_tools = []\<rparr>,
      other_tables = []\<rparr>"
  let ?none = "\<lparr>project = None, tool = None, other_tables = []\<rparr>"
  have f: "encoded_signatures ?bad = ''e30''"
    by (simp add: encoded_signatures_def)
  have d: "decode_signatures ''e30'' = Inl Base64Error"
    by code_simp
  have g: "encoded_signatures ?none = []"
    by (simp add: encoded_signatures_def)
  show ?thesis
    using f d g
      undecodable_signatures_raise [of ?bad decode_signatures Base64Error True]
      undecodable_signatures_raise [of ?none decode_signatures Base64Error True]
    by simp
qed

end
